theory Spec2Isabelle
  imports Main "HOL-Library.Sublist"
begin

section \<open>The chat route: \<open>vercel-ai-sdk-example/app/api/chat/route.ts\<close>\<close>

text \<open>
  A chat message as the handler reads it: \<open>msg.role\<close>, \<open>msg.content\<close> and the optional
  \<open>msg.toolInvocations\<close> array. A JavaScript array is truthy even when it is empty, and
  \<open>undefined\<close> is falsy, so the field is an \<open>option\<close> of a list.
\<close>

record invocation =
  inv_state :: string
  toolName :: string

record message =
  role :: string
  content :: string
  toolInvocations :: "invocation list option"

text \<open>
  The callback given to \<open>messages.filter\<close> (route.ts, lines 75-81): an assistant message
  with a \<open>toolInvocations\<close> array returns \<open>every(inv.state === 'result')\<close>; every
  other message returns \<open>true\<close>.
\<close>

definition keepMessage :: "message \<Rightarrow> bool" where
  "keepMessage msg =
     (if role msg = ''assistant'' \<and> toolInvocations msg \<noteq> None
      then list_all (\<lambda>inv. inv_state inv = ''result'') (the (toolInvocations msg))
      else True)"

definition filteredMessages :: "message list \<Rightarrow> message list" where
  "filteredMessages messages = filter keepMessage messages"

text \<open>
  The handler \<open>POST\<close> (lines 71-157). Creating the MCP client and listing its tools can
  throw; the \<open>catch\<close> block then answers with status 500. Otherwise \<open>streamText\<close> is
  called with \<open>messages: filteredMessages\<close>. The result records what the language model
  was given.
\<close>

datatype mcp_result = McpFailed string | McpReady

datatype post_result =
    StreamText "message list"
  | ErrorResponse nat string

definition POST :: "mcp_result \<Rightarrow> message list \<Rightarrow> post_result" where
  "POST mcp messages =
     (let filtered = filteredMessages messages in
      case mcp of
        McpReady \<Rightarrow> StreamText filtered
      | McpFailed e \<Rightarrow> ErrorResponse 500 ''Failed to initialize MCP client'')"

text \<open>
  The claim's wording, as a predicate of its own: a message is an assistant message
  containing an incomplete tool invocation.
\<close>

definition incompleteAssistant :: "message \<Rightarrow> bool" where
  "incompleteAssistant msg =
     (role msg = ''assistant'' \<and>
      (case toolInvocations msg of
         None \<Rightarrow> False
       | Some invs \<Rightarrow> list_ex (\<lambda>inv. inv_state inv \<noteq> ''result'') invs))"

section \<open>The web UI: \<open>create-shorts-post-to-socials/src/App.tsx\<close>\<close>

subsection \<open>Data\<close>

text \<open>
  \<open>VideoFile\<close> and \<open>ProcessingStatus\<close> are the interfaces of lines 19-32 (the field
  \<open>source\<close> has the single value \<open>'dropbox'\<close> and is left out). Optional fields are
  options. The message of a processing status is either a fixed text or the template
  \<open>`Processing... ${progress || 0}%`\<close>, kept with the number it renders.
\<close>

type_synonym blob = "nat list"

record VideoFile =
  vf_id :: string
  vf_name :: string
  downloadUrl :: "string option"
  path :: "string option"

datatype ShortType = Webinar | Talking | Prompt

datatype status_tag = Idle | Uploading | Processing | Completed | Error

datatype status_message = Text string | ProcessingPercent int

record ProcessingStatus =
  status :: status_tag
  progress :: "int option"
  message :: "status_message option"
  outputUrls :: "string list option"

record toast =
  title :: string
  description :: string
  destructive :: bool

text \<open>
  The HTTP requests \<open>processVideo\<close> issues, with the parts of each request that vary.
  The base URL and the bearer token come from \<open>import.meta.env\<close> and are the same in
  every request.
\<close>

datatype request =
    DropboxDownload string
  | GetUploadUrl string nat string
  | PutUpload string blob string
  | FinalizeUpload string
  | RunAgent string "string option" "string option" bool
  | GetAgentRunSimple string
  | GetAgentRunOutputs string

text \<open>The two agent ids read from \<open>import.meta.env\<close>; an unset variable is \<open>undefined\<close>.\<close>

record env =
  VITE_WEBINAR_AGENT_ID :: "string option"
  VITE_TALKINGHEAD_AGENT_ID :: "string option"

text \<open>
  What the network answers to the requests of the upload phase. An axios call that
  fails throws; the thrown error is \<open>Inl\<close>. The Dropbox download uses \<open>fetch\<close>, which
  either throws or answers with \<open>response.ok\<close> false (and an error text) or with the blob.
\<close>

datatype download_result = DownloadThrows string | DownloadNotOk string | DownloadOk blob

record world =
  dropboxDownload :: download_result
  getUploadUrl :: "string + (string \<times> string)"
  putUpload :: "string + unit"
  finalizeUpload :: "string + string"
  runAgent :: "string + string"

text \<open>
  The component state that \<open>processVideo\<close> reads and writes, together with what it does
  to the outside: toasts shown, lines written to the console, requests issued (in
  order), calls of \<open>setInterval\<close>, and whether the interval created at line 281 is
  still active. \<open>runId\<close> is the run id the interval's callback closes over.
  \<open>statusInFlight\<close> and \<open>outputsInFlight\<close> count the requests of the callback that
  have been sent and not answered yet: the callback is \<open>async\<close>, so a tick can fire
  while an earlier tick still awaits its answer.
\<close>

record ui =
  selectedVideo :: "VideoFile option"
  dropboxFiles :: "VideoFile list"
  shortType :: ShortType
  promptText :: string
  processingStatus :: ProcessingStatus
  toasts :: "toast list"
  console :: "string list"
  requests :: "request list"
  intervalsCreated :: nat
  timerActive :: bool
  runId :: string
  statusInFlight :: nat
  outputsInFlight :: nat
  mounted :: bool

subsection \<open>JavaScript truthiness\<close>

text \<open>A string value is truthy when it is present and not empty.\<close>

definition truthy :: "string option \<Rightarrow> bool" where
  "truthy v = (case v of None \<Rightarrow> False | Some s \<Rightarrow> s \<noteq> [])"

text \<open>\<open>a || b\<close> on strings.\<close>

definition or_else :: "string option \<Rightarrow> string \<Rightarrow> string" where
  "or_else v d = (if truthy v then the v else d)"

subsection \<open>The upload phase of \<open>processVideo\<close> (lines 150-278, 335-346)\<close>

definition setProcessingStatus :: "ProcessingStatus \<Rightarrow> ui \<Rightarrow> ui" where
  "setProcessingStatus p s = s\<lparr>processingStatus := p\<rparr>"

definition showToast :: "toast \<Rightarrow> ui \<Rightarrow> ui" where
  "showToast t s = s\<lparr>toasts := toasts s @ [t]\<rparr>"

definition consoleLog :: "string \<Rightarrow> ui \<Rightarrow> ui" where
  "consoleLog l s = s\<lparr>console := console s @ [l]\<rparr>"

definition send :: "request \<Rightarrow> ui \<Rightarrow> ui" where
  "send r s = s\<lparr>requests := requests s @ [r]\<rparr>"

definition idleStatus :: ProcessingStatus where
  "idleStatus = \<lparr>status = Idle, progress = None, message = None, outputUrls = None\<rparr>"

text \<open>The inner \<open>catch\<close> of the Dropbox download (lines 194-204).\<close>

definition downloadFailed :: "string \<Rightarrow> ui \<Rightarrow> ui" where
  "downloadFailed msg s =
     setProcessingStatus idleStatus
       (showToast \<lparr>title = ''Download Error'',
                   description = or_else (Some msg) ''Failed to download from Dropbox'',
                   destructive = True\<rparr>
         (consoleLog (''Dropbox download error: '' @ msg) s))"

text \<open>The outer \<open>catch\<close> (lines 335-346).\<close>

definition processingFailed :: "string \<Rightarrow> ui \<Rightarrow> ui" where
  "processingFailed e s =
     showToast \<lparr>title = ''Processing Error'',
                 description = ''Failed to process video. Please try again.'',
                 destructive = True\<rparr>
       (setProcessingStatus
          \<lparr>status = Error, progress = None,
            message = Some (Text ''An error occurred during processing''),
            outputUrls = None\<rparr>
          (consoleLog (''Processing error: '' @ e) s))"

text \<open>Lines 249-260: the agent id, the prompt and the \<open>auto\<close> flag of the run request.\<close>

definition agentChoice :: "env \<Rightarrow> ShortType \<Rightarrow> string \<Rightarrow> string option \<times> string option \<times> bool" where
  "agentChoice e t p =
     (case t of
        Webinar \<Rightarrow> (VITE_WEBINAR_AGENT_ID e, None, False)
      | Talking \<Rightarrow> (VITE_TALKINGHEAD_AGENT_ID e, None, False)
      | Prompt \<Rightarrow>
          (None,
           Some (or_else (Some p)
             ''make this an interesting short, add captions, and add in some background ai music''),
           True))"

text \<open>Steps 4 and 5 (lines 246-333): run the agent on \<open>fileId\<close>, then start the interval.\<close>

definition startRun :: "env \<Rightarrow> world \<Rightarrow> string \<Rightarrow> ui \<Rightarrow> ui" where
  "startRun e w fileId s0 =
     (let s1 = setProcessingStatus
                 \<lparr>status = Processing, progress = None,
                   message = Some (Text ''Creating your short video...''),
                   outputUrls = None\<rparr> s0;
          (agentId, prompt, auto) = agentChoice e (shortType s1) (promptText s1);
          s2 = send (RunAgent fileId agentId prompt auto) s1
      in case runAgent w of
           Inl err \<Rightarrow> processingFailed err s2
         | Inr agent_run_id \<Rightarrow>
             s2\<lparr>runId := agent_run_id, timerActive := True,
                intervalsCreated := Suc (intervalsCreated s2)\<rparr>)"

text \<open>Steps 1 to 3 (lines 206-244): upload URL, PUT of the bytes, finalize.\<close>

definition uploadVideo :: "env \<Rightarrow> world \<Rightarrow> VideoFile \<Rightarrow> blob \<Rightarrow> ui \<Rightarrow> ui" where
  "uploadVideo e w sel videoBlob s0 =
     (let fileSize = length videoBlob;
          s1 = send (GetUploadUrl (vf_name sel) fileSize ''video/mp4'') s0
      in case getUploadUrl w of
           Inl err \<Rightarrow> processingFailed err s1
         | Inr (upload_url, video_id) \<Rightarrow>
             (let s2 = send (PutUpload upload_url videoBlob ''video/mp4'') s1
              in case putUpload w of
                   Inl err \<Rightarrow> processingFailed err s2
                 | Inr u \<Rightarrow>
                     (let s3 = send (FinalizeUpload video_id) s2
                      in case finalizeUpload w of
                           Inl err \<Rightarrow> processingFailed err s3
                         | Inr file_uuid \<Rightarrow> startRun e w file_uuid s3)))"

definition processVideo :: "env \<Rightarrow> world \<Rightarrow> ui \<Rightarrow> ui" where
  "processVideo e w s =
     (case selectedVideo s of
        None \<Rightarrow> s
      | Some sel \<Rightarrow>
          (let s1 = setProcessingStatus
                      \<lparr>status = Uploading, progress = None,
                        message = Some (Text ''Uploading video to Mosaic...''),
                        outputUrls = None\<rparr> s
           in case find (\<lambda>f. vf_id f = vf_id sel) (dropboxFiles s1) of
                None \<Rightarrow>
                  setProcessingStatus idleStatus
                    (showToast \<lparr>title = ''Error'',
                                description = ''File information not found'',
                                destructive = True\<rparr> s1)
              | Some dropboxFile \<Rightarrow>
                  (let filePath = or_else (path dropboxFile) (vf_name dropboxFile);
                       s2 = send (DropboxDownload filePath)
                              (consoleLog (''Downloading Dropbox file: '' @ filePath) s1)
                   in case dropboxDownload w of
                        DownloadThrows msg \<Rightarrow> downloadFailed msg s2
                      | DownloadNotOk errorText \<Rightarrow>
                          downloadFailed (or_else (Some errorText) ''Failed to download from Dropbox'')
                            (consoleLog (''Dropbox error details: '' @ errorText) s2)
                      | DownloadOk videoBlob \<Rightarrow> uploadVideo e w sel videoBlob s2)))"

subsection \<open>The interval callback (lines 281-333)\<close>

text \<open>
  An output descriptor as the callback reads it: only \<open>o.download_url\<close>, which may be
  missing. Line 307-309: \<open>(outputs || []).map(o => o.download_url).filter(Boolean)\<close>.
\<close>

record output_descriptor =
  download_url :: "string option"

definition outputUrlsOf :: "output_descriptor list option \<Rightarrow> string list" where
  "outputUrlsOf outputs =
     map the (filter truthy (map download_url (case outputs of None \<Rightarrow> [] | Some os \<Rightarrow> os)))"

definition clearInterval :: "ui \<Rightarrow> ui" where
  "clearInterval s = s\<lparr>timerActive := False\<rparr>"

text \<open>The \<open>catch\<close> of the callback (lines 329-332).\<close>

definition pollingError :: "string \<Rightarrow> ui \<Rightarrow> ui" where
  "pollingError e s = consoleLog (''Polling error: '' @ e) (clearInterval s)"

text \<open>
  What can happen once \<open>processVideo\<close> has returned: the interval fires (\<open>Tick\<close>); the
  answer to a status request arrives, an error or \<open>status\<close> and \<open>progress\<close>; the answer
  to an outputs request arrives, an error or the \<open>outputs\<close> field; the component is
  unmounted.
\<close>

datatype event =
    Tick
  | StatusResponse "string + (string \<times> int option)"
  | OutputsResponse "string + output_descriptor list option"
  | Unmount

text \<open>A cleared interval does not fire. An active one sends the status request.\<close>

definition onTick :: "ui \<Rightarrow> ui" where
  "onTick s =
     (if timerActive s
      then (send (GetAgentRunSimple (runId s)) s)\<lparr>statusInFlight := Suc (statusInFlight s)\<rparr>
      else s)"

text \<open>Lines 292-328, resumed when the status request is answered.\<close>

definition onStatus :: "string + (string \<times> int option) \<Rightarrow> ui \<Rightarrow> ui" where
  "onStatus r s0 =
     (if statusInFlight s0 = 0 then s0
      else
        (let s = s0\<lparr>statusInFlight := statusInFlight s0 - 1\<rparr>
         in case r of
              Inl err \<Rightarrow> pollingError err s
            | Inr (st, pr) \<Rightarrow>
                if st = ''success'' then
                  (send (GetAgentRunOutputs (runId s)) (clearInterval s))
                    \<lparr>outputsInFlight := Suc (outputsInFlight s)\<rparr>
                else if st = ''failed'' then
                  setProcessingStatus
                    \<lparr>status = Error, progress = None,
                      message = Some (Text ''Processing failed. Please try again.''),
                      outputUrls = None\<rparr>
                    (clearInterval s)
                else
                  setProcessingStatus
                    \<lparr>status = Processing, progress = pr,
                      message = Some (ProcessingPercent (case pr of None \<Rightarrow> 0 | Some p \<Rightarrow> p)),
                      outputUrls = None\<rparr> s))"

text \<open>Lines 307-315, resumed when the outputs request is answered.\<close>

definition onOutputs :: "string + output_descriptor list option \<Rightarrow> ui \<Rightarrow> ui" where
  "onOutputs r s0 =
     (if outputsInFlight s0 = 0 then s0
      else
        (let s = s0\<lparr>outputsInFlight := outputsInFlight s0 - 1\<rparr>
         in case r of
              Inl err \<Rightarrow> pollingError err s
            | Inr outputs \<Rightarrow>
                setProcessingStatus
                  \<lparr>status = Completed, progress = None,
                    message = Some (Text ''Video processed successfully!''),
                    outputUrls = Some (outputUrlsOf outputs)\<rparr> s))"

text \<open>
  \<open>App\<close> registers one effect (lines 47-49), which returns no cleanup function, and the
  interval id is a local constant of \<open>processVideo\<close>: unmounting runs no code of this
  component.
\<close>

definition onUnmount :: "ui \<Rightarrow> ui" where
  "onUnmount s = s\<lparr>mounted := False\<rparr>"

fun step :: "event \<Rightarrow> ui \<Rightarrow> ui" where
  "step Tick s = onTick s"
| "step (StatusResponse r) s = onStatus r s"
| "step (OutputsResponse r) s = onOutputs r s"
| "step Unmount s = onUnmount s"

fun run :: "event list \<Rightarrow> ui \<Rightarrow> ui" where
  "run [] s = s"
| "run (ev # evs) s = run evs (step ev s)"

text \<open>Counting the requests of one kind in the request log.\<close>

fun isStatusFetch :: "request \<Rightarrow> bool" where
  "isStatusFetch (GetAgentRunSimple r) = True"
| "isStatusFetch _ = False"

fun isOutputsFetch :: "request \<Rightarrow> bool" where
  "isOutputsFetch (GetAgentRunOutputs r) = True"
| "isOutputsFetch _ = False"

definition statusFetches :: "ui \<Rightarrow> nat" where
  "statusFetches s = length (filter isStatusFetch (requests s))"

definition outputsFetches :: "ui \<Rightarrow> nat" where
  "outputsFetches s = length (filter isOutputsFetch (requests s))"

text \<open>The requests a state transformer adds to the log.\<close>

definition newRequests :: "(ui \<Rightarrow> ui) \<Rightarrow> ui \<Rightarrow> request list" where
  "newRequests f s = drop (length (requests s)) (requests (f s))"

text \<open>The position of each endpoint in the pipeline.\<close>

fun stage :: "request \<Rightarrow> nat" where
  "stage (DropboxDownload p) = 0"
| "stage (GetUploadUrl n sz ct) = 1"
| "stage (PutUpload u b ct) = 2"
| "stage (FinalizeUpload v) = 3"
| "stage (RunAgent f a p au) = 4"
| "stage (GetAgentRunSimple r) = 5"
| "stage (GetAgentRunOutputs r) = 6"

text \<open>
  Events in which the server does not end the run: a status answer is neither an error
  nor one of the statuses \<open>success\<close> and \<open>failed\<close>.
\<close>

fun nonTerminal :: "event \<Rightarrow> bool" where
  "nonTerminal (StatusResponse (Inl err)) = False"
| "nonTerminal (StatusResponse (Inr (st, pr))) = (st \<noteq> ''success'' \<and> st \<noteq> ''failed'')"
| "nonTerminal _ = True"

fun isSuccessReport :: "event \<Rightarrow> bool" where
  "isSuccessReport (StatusResponse (Inr (st, pr))) = (st = ''success'')"
| "isSuccessReport _ = False"

text \<open>The events at which the callback calls \<open>clearInterval\<close>.\<close>

fun clearsInterval :: "event \<Rightarrow> bool" where
  "clearsInterval (StatusResponse (Inl err)) = True"
| "clearsInterval (StatusResponse (Inr (st, pr))) = (st = ''success'' \<or> st = ''failed'')"
| "clearsInterval (OutputsResponse (Inl err)) = True"
| "clearsInterval _ = False"

text \<open>The event is not an answer nobody waits for: its request has been sent.\<close>

fun awaited :: "event \<Rightarrow> ui \<Rightarrow> bool" where
  "awaited (StatusResponse r) s = (0 < statusInFlight s)"
| "awaited (OutputsResponse r) s = (0 < outputsInFlight s)"
| "awaited _ s = True"

text \<open>Every call of the upload phase is answered without an error.\<close>

definition allSucceed :: "world \<Rightarrow> bool" where
  "allSucceed w =
     ((case dropboxDownload w of DownloadOk b \<Rightarrow> True | _ \<Rightarrow> False) \<and>
      \<not> isl (getUploadUrl w) \<and> \<not> isl (putUpload w) \<and>
      \<not> isl (finalizeUpload w) \<and> \<not> isl (runAgent w))"

text \<open>The selected video is in the stored Dropbox list (line 162).\<close>

definition fileKnown :: "ui \<Rightarrow> bool" where
  "fileKnown s =
     (case selectedVideo s of
        None \<Rightarrow> False
      | Some sel \<Rightarrow> find (\<lambda>f. vf_id f = vf_id sel) (dropboxFiles s) \<noteq> None)"

subsection \<open>A concrete job\<close>

definition exampleVideo :: VideoFile where
  "exampleVideo = \<lparr>vf_id = ''id:1'', vf_name = ''/talk.mp4'', downloadUrl = Some ''id:1'',
                    path = Some ''/talk.mp4''\<rparr>"

definition exampleUi :: ui where
  "exampleUi =
     \<lparr>selectedVideo = Some exampleVideo, dropboxFiles = [exampleVideo],
      shortType = Prompt, promptText = ''add captions'',
      processingStatus = idleStatus, toasts = [], console = [], requests = [],
      intervalsCreated = 0, timerActive = False, runId = [],
      statusInFlight = 0, outputsInFlight = 0, mounted = True\<rparr>"

definition exampleEnv :: env where
  "exampleEnv = \<lparr>VITE_WEBINAR_AGENT_ID = Some ''agent-w'', VITE_TALKINGHEAD_AGENT_ID = None\<rparr>"

definition exampleWorld :: world where
  "exampleWorld =
     \<lparr>dropboxDownload = DownloadOk [0, 1, 2],
      getUploadUrl = Inr (''https://upload'', ''vid-1''),
      putUpload = Inr (),
      finalizeUpload = Inr ''file-1'',
      runAgent = Inr ''run-1''\<rparr>"

text \<open>The state after \<open>processVideo\<close> has returned and the interval has fired once.\<close>

definition exampleJob :: ui where
  "exampleJob = step Tick (processVideo exampleEnv exampleWorld exampleUi)"

section \<open>The demo page: \<open>Home\<close> (\<open>src/unnamed/part_003\<close>)\<close>

text \<open>The four values of the state \<open>currentStep\<close> (line 34), and their place in the sequence.\<close>

datatype demo_step = Initial | Upload | Caption | Status

fun rank :: "demo_step \<Rightarrow> nat" where
  "rank Initial = 0"
| "rank Upload = 1"
| "rank Caption = 2"
| "rank Status = 3"

text \<open>\<open>String.prototype.includes\<close>: the second string occurs somewhere in the first.\<close>

fun str_includes :: "string \<Rightarrow> string \<Rightarrow> bool" where
  "str_includes [] sub = (sub = [])"
| "str_includes (c # cs) sub = (prefix sub (c # cs) \<or> str_includes cs sub)"

text \<open>
  One run of the effect of lines 46-63, as a function of \<open>messages\<close> and \<open>currentStep\<close>;
  the result is the value of \<open>currentStep\<close> after the run (\<open>setCurrentStep\<close> is called at
  most once). \<open>messages[messages.length - 1]\<close> is \<open>undefined\<close> for an empty list.
\<close>

definition trackProgress :: "message list \<Rightarrow> demo_step \<Rightarrow> demo_step" where
  "trackProgress messages currentStep =
     (if messages = [] then currentStep
      else
        (let lastMessage = last messages in
         if currentStep = Initial \<and> role lastMessage = ''assistant'' \<and>
            str_includes (content lastMessage) ''```tsx''
         then Upload
         else if currentStep = Upload \<and> role lastMessage = ''assistant'' \<and>
            str_includes (content lastMessage) ''uploaded successfully''
         then Caption
         else if currentStep = Caption \<and> role lastMessage = ''assistant'' \<and>
            (str_includes (content lastMessage) ''Processing'' \<or>
             str_includes (content lastMessage) ''may take'')
         then Status
         else currentStep))"

text \<open>
  The effect's dependencies are \<open>[messages, currentStep]\<close> (line 63). When a run sets
  \<open>currentStep\<close> to a new value React renders again and, a dependency having changed,
  runs the effect again on the same \<open>messages\<close>; when the value is unchanged nothing
  more happens. \<open>renders\<close> lists the values of \<open>currentStep\<close> in the successive renders
  that one value of \<open>messages\<close> causes, and \<open>observe\<close> is the value it settles on.
\<close>

function renders :: "message list \<Rightarrow> demo_step \<Rightarrow> demo_step list" where
  "renders messages currentStep =
     (let next = trackProgress messages currentStep in
      if next = currentStep then [currentStep]
      else currentStep # renders messages next)"
  by pat_completeness auto
termination
  by (relation "measure (\<lambda>(m, st). 3 - rank st)")
     (auto simp: trackProgress_def Let_def split: if_splits)

definition observe :: "message list \<Rightarrow> demo_step \<Rightarrow> demo_step" where
  "observe messages currentStep = last (renders messages currentStep)"

text \<open>The page's history: \<open>messages\<close> takes a sequence of values, each one observed in turn.\<close>

fun observeAll :: "message list list \<Rightarrow> demo_step \<Rightarrow> demo_step" where
  "observeAll [] currentStep = currentStep"
| "observeAll (messages # rest) currentStep = observeAll rest (observe messages currentStep)"

section \<open>The preview: \<open>transformCode\<close> (\<open>src/unnamed/part_002\<close>, lines 58-67)\<close>



















section \<open>Properties of the chat route\<close>

lemma keepMessage_iff: "keepMessage msg = (\<not> incompleteAssistant msg)"
  by (cases "toolInvocations msg")
     (auto simp: keepMessage_def incompleteAssistant_def list_all_iff list_ex_iff)

text \<open>
  C8. Whenever \<open>POST\<close> reaches the language model, the messages it forwards are exactly
  the input messages that are not assistant messages with an incomplete tool invocation,
  in their original order: an assistant message with a \<open>toolInvocations\<close> list is kept
  if and only if all its invocations have state \<open>result\<close>, and any other message is kept.
\<close>

theorem C8_forwarded_messages:
  "(POST mcp messages = StreamText fwd \<longrightarrow>
      fwd = filter (\<lambda>m. \<not> incompleteAssistant m) messages \<and> subseq fwd messages) \<and>
   (POST McpReady messages = StreamText (filteredMessages messages)) \<and>
   (\<forall>m invs. role m = ''assistant'' \<and> toolInvocations m = Some invs \<longrightarrow>
      (m \<in> set (filteredMessages messages) \<longleftrightarrow>
         m \<in> set messages \<and> (\<forall>inv \<in> set invs. inv_state inv = ''result''))) \<and>
   (\<forall>m. role m \<noteq> ''assistant'' \<or> toolInvocations m = None \<longrightarrow>
      (m \<in> set (filteredMessages messages) \<longleftrightarrow> m \<in> set messages))"
proof -
  have eq: "filteredMessages messages = filter (\<lambda>m. \<not> incompleteAssistant m) messages"
    unfolding filteredMessages_def by (rule filter_cong) (simp_all add: keepMessage_iff)
  have a: "POST mcp messages = StreamText fwd \<longrightarrow>
      fwd = filter (\<lambda>m. \<not> incompleteAssistant m) messages \<and> subseq fwd messages"
    by (cases mcp) (auto simp: POST_def eq)
  have b: "POST McpReady messages = StreamText (filteredMessages messages)"
    by (simp add: POST_def)
  have c: "\<forall>m invs. role m = ''assistant'' \<and> toolInvocations m = Some invs \<longrightarrow>
      (m \<in> set (filteredMessages messages) \<longleftrightarrow>
         m \<in> set messages \<and> (\<forall>inv \<in> set invs. inv_state inv = ''result''))"
    by (auto simp: filteredMessages_def keepMessage_def list_all_iff)
  have d: "\<forall>m. role m \<noteq> ''assistant'' \<or> toolInvocations m = None \<longrightarrow>
      (m \<in> set (filteredMessages messages) \<longleftrightarrow> m \<in> set messages)"
    by (auto simp: filteredMessages_def keepMessage_def)
  from a b c d show ?thesis by blast
qed

theorem C8_forwarded_messages_witness:
  "POST McpReady
     [\<lparr>role = ''user'', content = ''hi'', toolInvocations = None\<rparr>,
      \<lparr>role = ''assistant'', content = ''wait'',
        toolInvocations = Some [\<lparr>inv_state = ''call'', toolName = ''get_run_status''\<rparr>]\<rparr>,
      \<lparr>role = ''assistant'', content = ''done'',
        toolInvocations = Some [\<lparr>inv_state = ''result'', toolName = ''get_run_status''\<rparr>]\<rparr>]
   = StreamText
     [\<lparr>role = ''user'', content = ''hi'', toolInvocations = None\<rparr>,
      \<lparr>role = ''assistant'', content = ''done'',
        toolInvocations = Some [\<lparr>inv_state = ''result'', toolName = ''get_run_status''\<rparr>]\<rparr>]
   \<and>
   [\<lparr>role = ''user'', content = ''hi'', toolInvocations = None\<rparr>,
    \<lparr>role = ''assistant'', content = ''done'',
      toolInvocations = Some [\<lparr>inv_state = ''result'', toolName = ''get_run_status''\<rparr>]\<rparr>]
   = filter (\<lambda>m. \<not> incompleteAssistant m)
     [\<lparr>role = ''user'', content = ''hi'', toolInvocations = None\<rparr>,
      \<lparr>role = ''assistant'', content = ''wait'',
        toolInvocations = Some [\<lparr>inv_state = ''call'', toolName = ''get_run_status''\<rparr>]\<rparr>,
      \<lparr>role = ''assistant'', content = ''done'',
        toolInvocations = Some [\<lparr>inv_state = ''result'', toolName = ''get_run_status''\<rparr>]\<rparr>]"
  using C8_forwarded_messages
    [of McpReady
      "[\<lparr>role = ''user'', content = ''hi'', toolInvocations = None\<rparr>,
        \<lparr>role = ''assistant'', content = ''wait'',
          toolInvocations = Some [\<lparr>inv_state = ''call'', toolName = ''get_run_status''\<rparr>]\<rparr>,
        \<lparr>role = ''assistant'', content = ''done'',
          toolInvocations = Some [\<lparr>inv_state = ''result'', toolName = ''get_run_status''\<rparr>]\<rparr>]"
      "[\<lparr>role = ''user'', content = ''hi'', toolInvocations = None\<rparr>,
        \<lparr>role = ''assistant'', content = ''done'',
          toolInvocations = Some [\<lparr>inv_state = ''result'', toolName = ''get_run_status''\<rparr>]\<rparr>]"]
  by (simp add: POST_def filteredMessages_def keepMessage_def)

section \<open>Properties of the web UI's poll loop\<close>

lemmas ui_defs = setProcessingStatus_def showToast_def consoleLog_def send_def
  clearInterval_def pollingError_def onTick_def onStatus_def onOutputs_def onUnmount_def
  statusFetches_def outputsFetches_def

lemmas pv_defs = processVideo_def uploadVideo_def startRun_def processingFailed_def
  downloadFailed_def agentChoice_def or_else_def truthy_def idleStatus_def

lemma exampleJob_eval:
  "exampleJob =
     \<lparr>selectedVideo = Some exampleVideo, dropboxFiles = [exampleVideo],
      shortType = Prompt, promptText = ''add captions'',
      processingStatus = \<lparr>status = Processing, progress = None,
                   message = Some (Text ''Creating your short video...''),
                   outputUrls = None\<rparr>, toasts = [],
      console = [''Downloading Dropbox file: /talk.mp4''],
      requests = [DropboxDownload ''/talk.mp4'', GetUploadUrl ''/talk.mp4'' 3 ''video/mp4'',
                  PutUpload ''https://upload'' [0, 1, 2] ''video/mp4'', FinalizeUpload ''vid-1'',
                  RunAgent ''file-1'' None (Some ''add captions'') True,
                  GetAgentRunSimple ''run-1''],
      intervalsCreated = 1, timerActive = True, runId = ''run-1'',
      statusInFlight = 1, outputsInFlight = 0, mounted = True\<rparr>"
  by (simp add: exampleJob_def exampleUi_def exampleWorld_def exampleEnv_def exampleVideo_def
        pv_defs ui_defs Let_def)

text \<open>Once the interval is cleared it stays cleared, and no status request is sent.\<close>

lemma step_inactive:
  "\<not> timerActive s \<Longrightarrow>
     \<not> timerActive (step ev s) \<and> statusFetches (step ev s) = statusFetches s"
  by (cases ev) (auto simp: ui_defs Let_def split: sum.splits prod.splits)

lemma run_inactive:
  "\<not> timerActive s \<Longrightarrow>
     \<not> timerActive (run evs s) \<and> statusFetches (run evs s) = statusFetches s"
proof (induction evs arbitrary: s)
  case Nil
  then show ?case by simp
next
  case (Cons ev evs)
  from Cons.prems have a: "\<not> timerActive (step ev s)"
    and b: "statusFetches (step ev s) = statusFetches s"
    using step_inactive by blast+
  from Cons.IH [OF a] b show ?case by simp
qed

text \<open>What a status answer without an error does to the interval.\<close>

lemma poll_status_answer:
  "(0 < statusInFlight s \<and> (st = ''success'' \<or> st = ''failed'') \<longrightarrow>
      \<not> timerActive (step (StatusResponse (Inr (st, pr))) s) \<and>
      (\<forall>evs. statusFetches (run evs (step (StatusResponse (Inr (st, pr))) s)) = statusFetches s)) \<and>
   (st \<noteq> ''success'' \<and> st \<noteq> ''failed'' \<longrightarrow>
      timerActive (step (StatusResponse (Inr (st, pr))) s) = timerActive s \<and>
      (timerActive s \<longrightarrow>
         requests (step Tick (step (StatusResponse (Inr (st, pr))) s)) =
           requests s @ [GetAgentRunSimple (runId s)]))"
proof -
  let ?s' = "step (StatusResponse (Inr (st, pr))) s"
  have t: "0 < statusInFlight s \<Longrightarrow> st = ''success'' \<or> st = ''failed'' \<Longrightarrow>
             \<not> timerActive ?s' \<and> statusFetches ?s' = statusFetches s"
    by (auto simp: ui_defs Let_def)
  have n: "st \<noteq> ''success'' \<Longrightarrow> st \<noteq> ''failed'' \<Longrightarrow>
             timerActive ?s' = timerActive s \<and> requests ?s' = requests s \<and> runId ?s' = runId s"
    by (auto simp: ui_defs Let_def)
  have k: "timerActive x \<Longrightarrow> requests (step Tick x) = requests x @ [GetAgentRunSimple (runId x)]"
    for x
    by (simp add: ui_defs)
  show ?thesis
    using t n k [of ?s'] run_inactive [of ?s'] by metis
qed

text \<open>A failed status request clears the interval as well.\<close>

lemma poll_status_error:
  "0 < statusInFlight s \<Longrightarrow>
     \<not> timerActive (step (StatusResponse (Inl err)) s) \<and>
     (\<forall>evs. statusFetches (run evs (step (StatusResponse (Inl err)) s)) = statusFetches s)"
proof -
  assume h: "0 < statusInFlight s"
  then have a: "\<not> timerActive (step (StatusResponse (Inl err)) s)"
    and b: "statusFetches (step (StatusResponse (Inl err)) s) = statusFetches s"
    by (simp_all add: ui_defs Let_def)
  from run_inactive [OF a] a b show ?thesis by simp
qed

text \<open>An active interval is cleared by exactly the awaited events that call \<open>clearInterval\<close>.\<close>

lemma step_clears_iff:
  "timerActive s \<Longrightarrow> (\<not> timerActive (step ev s)) = (clearsInterval ev \<and> awaited ev s)"
  by (cases ev rule: clearsInterval.cases) (auto simp: ui_defs Let_def)

text \<open>
  C1, as stated, fails: a status request that fails clears the interval too, so polling
  stops although no terminal status was reported.
\<close>

theorem C1_poll_stops_exactly_counterexample:
  "timerActive exampleJob \<and>
   \<not> timerActive (step (StatusResponse (Inl ''Network Error'')) exampleJob) \<and>
   requests (run [StatusResponse (Inl ''Network Error''), Tick, Tick] exampleJob) =
     requests exampleJob"
  by (simp add: exampleJob_eval ui_defs)

text \<open>
  C1, amended. The poll loop stops exactly when a status answer reports \<open>success\<close> or
  \<open>failed\<close> or a request of the callback fails: an active interval is cleared by an
  event if and only if the event is such an answer, and after a terminal status or a
  failed status request no further status request is sent, whatever happens. A status
  answer with any other status leaves the interval as it was, and an active interval
  sends the next status request at its next tick.
\<close>

theorem C1_poll_stops_exactly:
  "(0 < statusInFlight s \<and> (st = ''success'' \<or> st = ''failed'') \<longrightarrow>
      \<not> timerActive (step (StatusResponse (Inr (st, pr))) s) \<and>
      (\<forall>evs. statusFetches (run evs (step (StatusResponse (Inr (st, pr))) s)) = statusFetches s)) \<and>
   (st \<noteq> ''success'' \<and> st \<noteq> ''failed'' \<longrightarrow>
      timerActive (step (StatusResponse (Inr (st, pr))) s) = timerActive s \<and>
      (timerActive s \<longrightarrow>
         requests (step Tick (step (StatusResponse (Inr (st, pr))) s)) =
           requests s @ [GetAgentRunSimple (runId s)])) \<and>
   (0 < statusInFlight s \<longrightarrow>
      \<not> timerActive (step (StatusResponse (Inl err)) s) \<and>
      (\<forall>evs. statusFetches (run evs (step (StatusResponse (Inl err)) s)) = statusFetches s)) \<and>
   (timerActive s \<longrightarrow>
      (\<not> timerActive (step ev s)) = (clearsInterval ev \<and> awaited ev s)) \<and>
   (\<not> timerActive s \<longrightarrow>
      (\<forall>evs. \<not> timerActive (run evs s) \<and> statusFetches (run evs s) = statusFetches s))"
  using poll_status_answer [of s st pr] poll_status_error [of s err] step_clears_iff [of s ev]
    run_inactive [of s]
  by blast

theorem C1_poll_stops_exactly_witness:
  "0 < statusInFlight exampleJob \<and> timerActive exampleJob \<and>
   \<not> timerActive (step (StatusResponse (Inr (''failed'', None))) exampleJob) \<and>
   statusFetches (run [Tick, Tick] (step (StatusResponse (Inr (''failed'', None))) exampleJob)) =
     statusFetches exampleJob \<and>
   timerActive (step (StatusResponse (Inr (''processing'', Some 40))) exampleJob) \<and>
   requests (step Tick (step (StatusResponse (Inr (''processing'', Some 40))) exampleJob)) =
     requests exampleJob @ [GetAgentRunSimple ''run-1''] \<and>
   \<not> timerActive (step (StatusResponse (Inl ''Network Error'')) exampleJob) \<and>
   clearsInterval (StatusResponse (Inl ''Network Error'')) \<and>
   timerActive (step Tick exampleJob) \<and> \<not> clearsInterval Tick \<and>
   \<not> timerActive (run [Tick] (step (StatusResponse (Inr (''failed'', None))) exampleJob))"
proof -
  let ?f = "step (StatusResponse (Inr (''failed'', None))) exampleJob"
  have h1: "0 < statusInFlight exampleJob" and h2: "timerActive exampleJob"
    and h3: "runId exampleJob = ''run-1''"
    by (simp_all add: exampleJob_eval)
  have h4: "clearsInterval (StatusResponse (Inl ''Network Error''))" "\<not> clearsInterval Tick"
    by simp_all
  note T1 = C1_poll_stops_exactly
    [where s = exampleJob and st = "''failed''" and pr = None and err = "''Network Error''"
       and ev = Tick]
  from T1 h1
  have a: "\<not> timerActive ?f"
    and b: "\<forall>evs. statusFetches (run evs ?f) = statusFetches exampleJob"
    and e: "\<not> timerActive (step (StatusResponse (Inl ''Network Error'')) exampleJob)"
    by simp_all
  from T1 h2 h4 have f: "timerActive (step Tick exampleJob)"
    by blast
  note T2 = C1_poll_stops_exactly
    [where s = exampleJob and st = "''processing''" and pr = "Some 40"
       and err = "''Network Error''" and ev = Tick]
  from T2 h2 h3
  have c: "timerActive (step (StatusResponse (Inr (''processing'', Some 40))) exampleJob)"
    and d: "requests (step Tick (step (StatusResponse (Inr (''processing'', Some 40))) exampleJob)) =
              requests exampleJob @ [GetAgentRunSimple ''run-1'']"
    by simp_all
  note T3 = C1_poll_stops_exactly
    [where s = "?f" and st = "''failed''" and pr = None and err = "''Network Error''"
       and ev = Tick]
  from T3 a have g: "\<not> timerActive (run [Tick] ?f)"
    by blast
  from b have b': "statusFetches (run [Tick, Tick] ?f) = statusFetches exampleJob"
    by blast
  from h1 h2 h4 a b' c d e f g show ?thesis by blast
qed

text \<open>A step that does not end the run keeps the interval active.\<close>

lemma step_nonTerminal:
  "timerActive s \<Longrightarrow> outputsInFlight s = 0 \<Longrightarrow> nonTerminal ev \<Longrightarrow>
     timerActive (step ev s) \<and> outputsInFlight (step ev s) = 0 \<and>
     statusFetches (step ev s) = statusFetches s + (if ev = Tick then 1 else 0)"
  by (cases ev rule: nonTerminal.cases) (auto simp: ui_defs Let_def)

text \<open>
  C4. As long as no status answer is an error or reports \<open>success\<close> or \<open>failed\<close>, the
  interval stays active through any sequence of ticks, answers and an unmount, and
  every tick sends one more status request: the number of status requests grows with
  the number of ticks, without a bound.
\<close>

theorem C4_poll_unbounded:
  "timerActive s \<and> outputsInFlight s = 0 \<and> list_all nonTerminal evs \<Longrightarrow>
     timerActive (run evs s) \<and>
     statusFetches (run evs s) = statusFetches s + count_list evs Tick"
proof (induction evs arbitrary: s)
  case Nil
  then show ?case by simp
next
  case (Cons ev evs)
  then have a: "timerActive s" "outputsInFlight s = 0" "nonTerminal ev" "list_all nonTerminal evs"
    by simp_all
  note st = step_nonTerminal [OF a(1) a(2) a(3)]
  from st a(4) have "timerActive (step ev s) \<and> outputsInFlight (step ev s) = 0 \<and>
      list_all nonTerminal evs"
    by simp
  from Cons.IH [OF this] st show ?case by auto
qed

theorem C4_poll_unbounded_witness:
  "timerActive exampleJob \<and> outputsInFlight exampleJob = 0 \<and>
   list_all nonTerminal
     [StatusResponse (Inr (''processing'', Some 10)), Tick, Unmount,
      StatusResponse (Inr (''pending'', None)), Tick] \<and>
   timerActive
     (run [StatusResponse (Inr (''processing'', Some 10)), Tick, Unmount,
           StatusResponse (Inr (''pending'', None)), Tick] exampleJob) \<and>
   statusFetches
     (run [StatusResponse (Inr (''processing'', Some 10)), Tick, Unmount,
           StatusResponse (Inr (''pending'', None)), Tick] exampleJob) = 3"
  using C4_poll_unbounded
    [of exampleJob "[StatusResponse (Inr (''processing'', Some 10)), Tick, Unmount,
                     StatusResponse (Inr (''pending'', None)), Tick]"]
  by (simp add: exampleJob_eval statusFetches_def)

text \<open>A step sends an outputs request exactly when it handles a \<open>success\<close> report.\<close>

lemma step_outputsFetches:
  "outputsFetches (step ev s) =
     outputsFetches s + (if isSuccessReport ev \<and> 0 < statusInFlight s then 1 else 0)"
  by (cases ev rule: isSuccessReport.cases)
     (auto simp: ui_defs Let_def split: sum.splits prod.splits)

lemma run_no_success:
  "list_all (\<lambda>ev. \<not> isSuccessReport ev) evs \<Longrightarrow> outputsFetches (run evs s) = outputsFetches s"
  by (induction evs arbitrary: s) (simp_all add: step_outputsFetches)

text \<open>
  C5. The outputs request is sent only by the step that handles a status answer
  reporting \<open>success\<close>; a sequence of events without such an answer sends none. A status
  answer reporting \<open>failed\<close> sends no request and sets the processing status to
  \<open>error\<close>.
\<close>

theorem C5_outputs_only_after_success:
  "outputsFetches (step ev s) =
     outputsFetches s + (if isSuccessReport ev \<and> 0 < statusInFlight s then 1 else 0) \<and>
   (list_all (\<lambda>ev. \<not> isSuccessReport ev) evs \<longrightarrow>
      outputsFetches (run evs s) = outputsFetches s) \<and>
   (0 < statusInFlight s \<longrightarrow>
      requests (step (StatusResponse (Inr (''success'', pr))) s) =
        requests s @ [GetAgentRunOutputs (runId s)] \<and>
      requests (step (StatusResponse (Inr (''failed'', pr))) s) = requests s \<and>
      status (processingStatus (step (StatusResponse (Inr (''failed'', pr))) s)) = Error)"
  using step_outputsFetches [of ev s] run_no_success [of evs s]
  by (auto simp: ui_defs Let_def)

theorem C5_outputs_only_after_success_witness:
  "0 < statusInFlight exampleJob \<and>
   list_all (\<lambda>ev. \<not> isSuccessReport ev) [Tick, StatusResponse (Inr (''failed'', None))] \<and>
   outputsFetches (run [Tick, StatusResponse (Inr (''failed'', None))] exampleJob) = 0 \<and>
   outputsFetches (step (StatusResponse (Inr (''success'', None))) exampleJob) = 1 \<and>
   requests (step (StatusResponse (Inr (''success'', None))) exampleJob) =
     requests exampleJob @ [GetAgentRunOutputs ''run-1''] \<and>
   status (processingStatus (step (StatusResponse (Inr (''failed'', None))) exampleJob)) = Error"
  using C5_outputs_only_after_success
    [of "StatusResponse (Inr (''success'', None))" exampleJob
        "[Tick, StatusResponse (Inr (''failed'', None))]" None]
  by (simp add: exampleJob_eval outputsFetches_def)

lemma outputUrlsOf_filter:
  "outputUrlsOf (Some outs) = map (the \<circ> download_url) (filter (truthy \<circ> download_url) outs)"
  by (simp add: outputUrlsOf_def filter_map)

text \<open>
  C7. When every output descriptor carries a download URL (present and not empty), the
  list of output URLs presented after success holds exactly one URL per descriptor
  returned by the outputs endpoint, in the same order: it is the list of their download
  URLs. In general the list holds the non-empty download URLs in order, so it has one
  URL per descriptor exactly under that premise.
\<close>

theorem C7_output_urls:
  "outputUrlsOf (Some outs) = map (the \<circ> download_url) (filter (truthy \<circ> download_url) outs) \<and>
   length (outputUrlsOf (Some outs)) \<le> length outs \<and>
   (length (outputUrlsOf (Some outs)) = length outs \<longleftrightarrow>
      (\<forall>d \<in> set outs. truthy (download_url d))) \<and>
   ((\<forall>d \<in> set outs. truthy (download_url d)) \<longrightarrow>
      outputUrlsOf (Some outs) = map (the \<circ> download_url) outs) \<and>
   outputUrlsOf None = [] \<and>
   (0 < outputsInFlight s \<longrightarrow>
      processingStatus (step (OutputsResponse (Inr (Some outs))) s) =
        \<lparr>status = Completed, progress = None,
         message = Some (Text ''Video processed successfully!''),
         outputUrls = Some (outputUrlsOf (Some outs))\<rparr>)"
proof -
  have a: "length (filter P xs) = length xs \<longleftrightarrow> (\<forall>x \<in> set xs. P x)"
    for P and xs :: "'a list"
    by (metis filter_id_conv length_filter_less less_irrefl_nat nat_less_le length_filter_le)
  have b: "0 < outputsInFlight s \<longrightarrow>
      processingStatus (step (OutputsResponse (Inr (Some outs))) s) =
        \<lparr>status = Completed, progress = None,
         message = Some (Text ''Video processed successfully!''),
         outputUrls = Some (outputUrlsOf (Some outs))\<rparr>"
    by (simp add: ui_defs Let_def)
  have c: "outputUrlsOf None = []"
    by (simp add: outputUrlsOf_def)
  have d: "length (outputUrlsOf (Some outs)) \<le> length outs"
    by (simp add: outputUrlsOf_filter)
  have e: "length (outputUrlsOf (Some outs)) = length outs \<longleftrightarrow>
      (\<forall>d \<in> set outs. truthy (download_url d))"
    by (simp add: outputUrlsOf_filter a)
  have f: "(\<forall>d \<in> set outs. truthy (download_url d)) \<longrightarrow>
      outputUrlsOf (Some outs) = map (the \<circ> download_url) outs"
    by (simp add: outputUrlsOf_filter)
  from outputUrlsOf_filter [of outs] b c d e f show ?thesis by blast
qed

theorem C7_output_urls_witness:
  "list_all (\<lambda>d. truthy (download_url d))
     [\<lparr>download_url = Some ''a''\<rparr>, \<lparr>download_url = Some ''b''\<rparr>] \<and>
   outputUrlsOf (Some [\<lparr>download_url = Some ''a''\<rparr>, \<lparr>download_url = Some ''b''\<rparr>]) =
     [''a'', ''b''] \<and>
   0 < outputsInFlight (step (StatusResponse (Inr (''success'', None))) exampleJob) \<and>
   outputUrls (processingStatus
     (step (OutputsResponse (Inr (Some [\<lparr>download_url = Some ''a''\<rparr>,
                                        \<lparr>download_url = Some ''b''\<rparr>])))
        (step (StatusResponse (Inr (''success'', None))) exampleJob))) = Some [''a'', ''b'']"
  using C7_output_urls
    [of "[\<lparr>download_url = Some ''a''\<rparr>, \<lparr>download_url = Some ''b''\<rparr>]"
        "step (StatusResponse (Inr (''success'', None))) exampleJob"]
  by (simp add: exampleJob_eval truthy_def ui_defs)

section \<open>Properties of the upload phase\<close>

text \<open>
  The requests of one call of \<open>processVideo\<close> follow the pipeline order, each endpoint
  at most once, whatever the network answers.
\<close>

lemma pv_requests_ordered:
  "sorted_wrt (<) (map stage (newRequests (processVideo e w) s))"
  by (auto simp: newRequests_def pv_defs ui_defs Let_def
           split: option.splits download_result.splits sum.splits prod.splits ShortType.splits)

lemma pv_run_file_id:
  "RunAgent fid a p au \<in> set (newRequests (processVideo e w) s) \<Longrightarrow>
     finalizeUpload w = Inr fid \<and> (a, p, au) = agentChoice e (shortType s) (promptText s)"
  by (auto simp: newRequests_def processVideo_def uploadVideo_def startRun_def processingFailed_def
       downloadFailed_def idleStatus_def ui_defs Let_def
           split: option.splits download_result.splits sum.splits prod.splits)

lemma pv_success:
  "selectedVideo s = Some sel \<Longrightarrow> find (\<lambda>f. vf_id f = vf_id sel) (dropboxFiles s) = Some f \<Longrightarrow>
   dropboxDownload w = DownloadOk b \<Longrightarrow> getUploadUrl w = Inr (url, vid) \<Longrightarrow>
   putUpload w = Inr u \<Longrightarrow> finalizeUpload w = Inr fid \<Longrightarrow>
   newRequests (processVideo e w) s =
     [DropboxDownload (or_else (path f) (vf_name f)),
      GetUploadUrl (vf_name sel) (length b) ''video/mp4'',
      PutUpload url b ''video/mp4'',
      FinalizeUpload vid,
      (case agentChoice e (shortType s) (promptText s) of (a, p, au) \<Rightarrow> RunAgent fid a p au)]"
  by (auto simp: newRequests_def processVideo_def uploadVideo_def startRun_def processingFailed_def
       downloadFailed_def idleStatus_def ui_defs Let_def
           split: option.splits download_result.splits sum.splits prod.splits)

lemma pv_failure:
  "selectedVideo s \<noteq> None \<Longrightarrow> \<not> (fileKnown s \<and> allSucceed w) \<Longrightarrow>
     length (toasts (processVideo e w s)) = Suc (length (toasts s)) \<and>
     destructive (last (toasts (processVideo e w s))) \<and>
     status (processingStatus (processVideo e w s)) \<in> {Idle, Error} \<and>
     intervalsCreated (processVideo e w s) = intervalsCreated s \<and>
     timerActive (processVideo e w s) = timerActive s"
  by (auto simp: fileKnown_def allSucceed_def processVideo_def uploadVideo_def startRun_def processingFailed_def
       downloadFailed_def idleStatus_def ui_defs Let_def
           split: option.splits download_result.splits sum.splits prod.splits)

lemma pv_started:
  "fileKnown s \<Longrightarrow> allSucceed w \<Longrightarrow>
     intervalsCreated (processVideo e w s) = Suc (intervalsCreated s) \<and>
     timerActive (processVideo e w s) \<and>
     (case runAgent w of Inr r \<Rightarrow> runId (processVideo e w s) = r | Inl x \<Rightarrow> False)"
  by (auto simp: fileKnown_def allSucceed_def processVideo_def uploadVideo_def startRun_def processingFailed_def
       downloadFailed_def idleStatus_def ui_defs Let_def
           split: option.splits download_result.splits sum.splits prod.splits)


text \<open>
  C2. When the download, the upload-URL request, the PUT and the finalize call succeed,
  \<open>processVideo\<close> sends, in this order: the upload-URL request with file name, file
  size and content type, the PUT of the bytes to the URL that request returned, the
  finalize call for the returned video id, and the run-agent call whose file id is the
  \<open>file_uuid\<close> of the finalize answer. In every case the requests are in pipeline
  order, and a run-agent request carries the file id that finalize returned.
\<close>

theorem C2_upload_order:
  "(selectedVideo s = Some sel \<and> find (\<lambda>f. vf_id f = vf_id sel) (dropboxFiles s) = Some f \<and>
    dropboxDownload w = DownloadOk b \<and> getUploadUrl w = Inr (url, vid) \<and>
    putUpload w = Inr u \<and> finalizeUpload w = Inr fid \<longrightarrow>
      newRequests (processVideo e w) s =
        [DropboxDownload (or_else (path f) (vf_name f)),
         GetUploadUrl (vf_name sel) (length b) ''video/mp4'',
         PutUpload url b ''video/mp4'',
         FinalizeUpload vid,
         (case agentChoice e (shortType s) (promptText s) of
            (a, p, au) \<Rightarrow> RunAgent fid a p au)]) \<and>
   sorted_wrt (<) (map stage (newRequests (processVideo e w) s)) \<and>
   (\<forall>fid' a p au. RunAgent fid' a p au \<in> set (newRequests (processVideo e w) s) \<longrightarrow>
      finalizeUpload w = Inr fid')"
  using pv_success [of s sel f w b url vid u fid e] pv_requests_ordered [of e w s]
    pv_run_file_id [of _ _ _ _ e w s]
  by blast

theorem C2_upload_order_witness:
  "selectedVideo exampleUi = Some exampleVideo \<and>
   find (\<lambda>f. vf_id f = vf_id exampleVideo) (dropboxFiles exampleUi) = Some exampleVideo \<and>
   dropboxDownload exampleWorld = DownloadOk [0, 1, 2] \<and>
   getUploadUrl exampleWorld = Inr (''https://upload'', ''vid-1'') \<and>
   putUpload exampleWorld = Inr () \<and> finalizeUpload exampleWorld = Inr ''file-1'' \<and>
   newRequests (processVideo exampleEnv exampleWorld) exampleUi =
     [DropboxDownload ''/talk.mp4'', GetUploadUrl ''/talk.mp4'' 3 ''video/mp4'',
      PutUpload ''https://upload'' [0, 1, 2] ''video/mp4'', FinalizeUpload ''vid-1'',
      RunAgent ''file-1'' None (Some ''add captions'') True]"
proof -
  have h: "selectedVideo exampleUi = Some exampleVideo"
    "find (\<lambda>f. vf_id f = vf_id exampleVideo) (dropboxFiles exampleUi) = Some exampleVideo"
    "dropboxDownload exampleWorld = DownloadOk [0, 1, 2]"
    "getUploadUrl exampleWorld = Inr (''https://upload'', ''vid-1'')"
    "putUpload exampleWorld = Inr ()" "finalizeUpload exampleWorld = Inr ''file-1''"
    by (simp_all add: exampleUi_def exampleWorld_def)
  have v: "or_else (path exampleVideo) (vf_name exampleVideo) = ''/talk.mp4''"
    "vf_name exampleVideo = ''/talk.mp4''"
    "agentChoice exampleEnv (shortType exampleUi) (promptText exampleUi) =
       (None, Some ''add captions'', True)"
    by (simp_all add: exampleVideo_def exampleUi_def or_else_def truthy_def agentChoice_def)
  from C2_upload_order
    [of exampleUi exampleVideo exampleVideo exampleWorld "[0, 1, 2]" "''https://upload''"
        "''vid-1''" "()" "''file-1''" exampleEnv] h
  have "newRequests (processVideo exampleEnv exampleWorld) exampleUi =
        [DropboxDownload (or_else (path exampleVideo) (vf_name exampleVideo)),
         GetUploadUrl (vf_name exampleVideo) (length [0::nat, 1, 2]) ''video/mp4'',
         PutUpload ''https://upload'' [0, 1, 2] ''video/mp4'',
         FinalizeUpload ''vid-1'',
         (case agentChoice exampleEnv (shortType exampleUi) (promptText exampleUi) of
            (a, p, au) \<Rightarrow> RunAgent ''file-1'' a p au)]"
    by blast
  with h v show ?thesis by simp
qed

lemma step_intervalsCreated: "intervalsCreated (step ev s) = intervalsCreated s"
  by (cases ev) (auto simp: ui_defs Let_def split: sum.splits prod.splits)

lemma step_cleared_by:
  "timerActive s \<Longrightarrow> \<not> timerActive (step ev s) \<Longrightarrow> clearsInterval ev"
  by (cases ev rule: clearsInterval.cases) (auto simp: ui_defs Let_def split: if_splits)

lemma step_clears:
  "clearsInterval ev \<Longrightarrow>
   (case ev of StatusResponse r \<Rightarrow> 0 < statusInFlight s
             | OutputsResponse r \<Rightarrow> 0 < outputsInFlight s | _ \<Rightarrow> True) \<Longrightarrow>
   \<not> timerActive (step ev s)"
  by (cases ev rule: clearsInterval.cases) (auto simp: ui_defs Let_def split: if_splits)

lemma run_not_cleared:
  "timerActive s \<Longrightarrow> list_all (\<lambda>ev. \<not> clearsInterval ev) evs \<Longrightarrow> timerActive (run evs s)"
proof (induction evs arbitrary: s)
  case Nil
  then show ?case by simp
next
  case (Cons ev evs)
  then have "timerActive (step ev s)" using step_cleared_by [of s ev] by auto
  with Cons show ?case by simp
qed

text \<open>
  C3, amended. A call of \<open>processVideo\<close> creates one interval when the file is known and
  every call of the upload phase succeeds, and none otherwise; the callback creates none.
  An active interval is cleared only by a status answer that is an error or reports
  \<open>success\<close> or \<open>failed\<close>, or by a failed outputs request, and such a status answer does
  clear it. Nothing else clears it: unmounting the component leaves it active.
\<close>

theorem C3_one_timer_no_teardown:
  "intervalsCreated (processVideo e w s) =
     intervalsCreated s + (if fileKnown s \<and> allSucceed w then 1 else 0) \<and>
   (fileKnown s \<and> allSucceed w \<longrightarrow> timerActive (processVideo e w s)) \<and>
   intervalsCreated (step ev s) = intervalsCreated s \<and>
   (timerActive s \<and> \<not> timerActive (step ev s) \<longrightarrow> clearsInterval ev) \<and>
   (0 < statusInFlight s \<and> clearsInterval (StatusResponse r) \<longrightarrow>
      \<not> timerActive (step (StatusResponse r) s)) \<and>
   (timerActive s \<and> list_all (\<lambda>ev. \<not> clearsInterval ev) evs \<longrightarrow> timerActive (run evs s)) \<and>
   timerActive (step Unmount s) = timerActive s"
proof -
  have a: "intervalsCreated (processVideo e w s) =
     intervalsCreated s + (if fileKnown s \<and> allSucceed w then 1 else 0)"
  proof (cases "fileKnown s \<and> allSucceed w")
    case True
    then show ?thesis using pv_started [of s w e] by simp
  next
    case False
    show ?thesis
    proof (cases "selectedVideo s")
      case None
      then show ?thesis using False by (simp add: processVideo_def fileKnown_def)
    next
      case (Some sel)
      then show ?thesis using False pv_failure [of s w e] by simp
    qed
  qed
  have b: "fileKnown s \<and> allSucceed w \<longrightarrow> timerActive (processVideo e w s)"
    using pv_started [of s w e] by simp
  have c: "0 < statusInFlight s \<and> clearsInterval (StatusResponse r) \<longrightarrow>
      \<not> timerActive (step (StatusResponse r) s)"
    using step_clears [of "StatusResponse r" s] by simp
  have d: "timerActive (step Unmount s) = timerActive s"
    by (simp add: onUnmount_def)
  from a b c d step_intervalsCreated [of ev s] step_cleared_by [of s ev] run_not_cleared [of s evs]
  show ?thesis by blast
qed

text \<open>
  C3, as stated, fails: after the component is unmounted while the job is in flight, the
  interval is still active and its next tick sends a status request.
\<close>

theorem C3_one_timer_no_teardown_counterexample:
  "timerActive exampleJob \<and> timerActive (step Unmount exampleJob) \<and>
   requests (run [Unmount, Tick] exampleJob) = requests exampleJob @ [GetAgentRunSimple ''run-1'']"
  by (simp add: exampleJob_eval ui_defs)

theorem C3_one_timer_no_teardown_witness:
  "fileKnown exampleUi \<and> allSucceed exampleWorld \<and>
   intervalsCreated (processVideo exampleEnv exampleWorld exampleUi) = 1 \<and>
   timerActive (processVideo exampleEnv exampleWorld exampleUi) \<and>
   timerActive exampleJob \<and> 0 < statusInFlight exampleJob \<and>
   \<not> timerActive (step (StatusResponse (Inr (''success'', None))) exampleJob) \<and>
   clearsInterval (StatusResponse (Inr (''success'', None))) \<and>
   list_all (\<lambda>ev. \<not> clearsInterval ev) [Unmount, Tick] \<and>
   timerActive (run [Unmount, Tick] exampleJob)"
proof -
  have h: "fileKnown exampleUi" "allSucceed exampleWorld" "intervalsCreated exampleUi = 0"
    by (simp_all add: fileKnown_def allSucceed_def exampleUi_def exampleWorld_def)
  have j: "timerActive exampleJob" "0 < statusInFlight exampleJob"
    by (simp_all add: exampleJob_eval)
  have k: "clearsInterval (StatusResponse (Inr (''success'', None)))"
    "list_all (\<lambda>ev. \<not> clearsInterval ev) [Unmount, Tick]"
    by simp_all
  from C3_one_timer_no_teardown [of exampleEnv exampleWorld exampleUi] h
  have a: "intervalsCreated (processVideo exampleEnv exampleWorld exampleUi) = 1"
    "timerActive (processVideo exampleEnv exampleWorld exampleUi)"
    by simp_all
  from C3_one_timer_no_teardown
    [of exampleEnv exampleWorld exampleJob "StatusResponse (Inr (''success'', None))"
        "Inr (''success'', None)" "[Unmount, Tick]"] j k
  have b: "\<not> timerActive (step (StatusResponse (Inr (''success'', None))) exampleJob)"
    "timerActive (run [Unmount, Tick] exampleJob)"
    by blast+
  from h j k a b show ?thesis by blast
qed


lemma status_error_step:
  "0 < statusInFlight s \<Longrightarrow>
     requests (step (StatusResponse (Inl err)) s) = requests s \<and>
     \<not> timerActive (step (StatusResponse (Inl err)) s) \<and>
     console (step (StatusResponse (Inl err)) s) = console s @ [''Polling error: '' @ err] \<and>
     (step (StatusResponse (Inl err)) s)\<lparr>console := c\<rparr> =
       (step (StatusResponse (Inl err')) s)\<lparr>console := c\<rparr>"
  by (simp add: ui_defs Let_def)

lemma outputs_error_step:
  "0 < outputsInFlight s \<Longrightarrow>
     requests (step (OutputsResponse (Inl err)) s) = requests s \<and>
     \<not> timerActive (step (OutputsResponse (Inl err)) s) \<and>
     console (step (OutputsResponse (Inl err)) s) = console s @ [''Polling error: '' @ err] \<and>
     (step (OutputsResponse (Inl err)) s)\<lparr>console := c\<rparr> =
       (step (OutputsResponse (Inl err')) s)\<lparr>console := c\<rparr>"
  by (simp add: ui_defs Let_def)

lemma processingFailed_same:
  "(processingFailed err s)\<lparr>console := c\<rparr> = (processingFailed err' s)\<lparr>console := c\<rparr>"
  by (simp add: processingFailed_def ui_defs)

text \<open>
  C6. No request is sent twice by \<open>processVideo\<close>; when a call of the upload phase
  fails, one destructive toast is shown, the processing status becomes \<open>idle\<close> or
  \<open>error\<close> and no interval is created. A failed status request sends nothing, writes
  one console line and clears the interval, so that no status request follows; a failed
  outputs request sends nothing and writes one console line. Apart from the console
  line, the outcome does not depend on which error it was. The chat route answers a
  failed MCP set-up with status 500.
\<close>

theorem C6_failures_not_retried:
  "sorted_wrt (<) (map stage (newRequests (processVideo e w) s)) \<and>
   (selectedVideo s \<noteq> None \<and> \<not> (fileKnown s \<and> allSucceed w) \<longrightarrow>
      length (toasts (processVideo e w s)) = Suc (length (toasts s)) \<and>
      destructive (last (toasts (processVideo e w s))) \<and>
      status (processingStatus (processVideo e w s)) \<in> {Idle, Error} \<and>
      intervalsCreated (processVideo e w s) = intervalsCreated s \<and>
      timerActive (processVideo e w s) = timerActive s) \<and>
   (processingFailed err s)\<lparr>console := c\<rparr> = (processingFailed err' s)\<lparr>console := c\<rparr> \<and>
   (0 < statusInFlight s \<longrightarrow>
      requests (step (StatusResponse (Inl err)) s) = requests s \<and>
      \<not> timerActive (step (StatusResponse (Inl err)) s) \<and>
      console (step (StatusResponse (Inl err)) s) = console s @ [''Polling error: '' @ err] \<and>
      (\<forall>evs. statusFetches (run evs (step (StatusResponse (Inl err)) s)) = statusFetches s) \<and>
      (step (StatusResponse (Inl err)) s)\<lparr>console := c\<rparr> =
        (step (StatusResponse (Inl err')) s)\<lparr>console := c\<rparr>) \<and>
   (0 < outputsInFlight s \<longrightarrow>
      requests (step (OutputsResponse (Inl err)) s) = requests s \<and>
      \<not> timerActive (step (OutputsResponse (Inl err)) s) \<and>
      console (step (OutputsResponse (Inl err)) s) = console s @ [''Polling error: '' @ err] \<and>
      (step (OutputsResponse (Inl err)) s)\<lparr>console := c\<rparr> =
        (step (OutputsResponse (Inl err')) s)\<lparr>console := c\<rparr>) \<and>
   POST (McpFailed err) messages = ErrorResponse 500 ''Failed to initialize MCP client''"
proof -
  have r: "0 < statusInFlight s \<longrightarrow>
      (\<forall>evs. statusFetches (run evs (step (StatusResponse (Inl err)) s)) = statusFetches s)"
  proof
    assume h: "0 < statusInFlight s"
    then have "\<not> timerActive (step (StatusResponse (Inl err)) s)"
      and "statusFetches (step (StatusResponse (Inl err)) s) = statusFetches s"
      by (simp_all add: ui_defs Let_def)
    then show "\<forall>evs. statusFetches (run evs (step (StatusResponse (Inl err)) s)) = statusFetches s"
      using run_inactive by simp
  qed
  have p: "POST (McpFailed err) messages = ErrorResponse 500 ''Failed to initialize MCP client''"
    by (simp add: POST_def)
  from r p pv_requests_ordered [of e w s] pv_failure [of s w e]
    processingFailed_same [where err = err and s = s and c = c and err' = err']
    status_error_step [where err = err and s = s and c = c and err' = err']
    outputs_error_step [where err = err and s = s and c = c and err' = err']
  show ?thesis by blast
qed

theorem C6_failures_not_retried_witness:
  "selectedVideo exampleUi \<noteq> None \<and>
   \<not> (fileKnown exampleUi \<and> allSucceed (exampleWorld\<lparr>putUpload := Inl ''HTTP 503''\<rparr>)) \<and>
   newRequests (processVideo exampleEnv (exampleWorld\<lparr>putUpload := Inl ''HTTP 503''\<rparr>)) exampleUi =
     [DropboxDownload ''/talk.mp4'', GetUploadUrl ''/talk.mp4'' 3 ''video/mp4'',
      PutUpload ''https://upload'' [0, 1, 2] ''video/mp4''] \<and>
   status (processingStatus
     (processVideo exampleEnv (exampleWorld\<lparr>putUpload := Inl ''HTTP 503''\<rparr>) exampleUi)) = Error \<and>
   \<not> timerActive (processVideo exampleEnv (exampleWorld\<lparr>putUpload := Inl ''HTTP 503''\<rparr>) exampleUi) \<and>
   0 < statusInFlight exampleJob \<and>
   requests (step (StatusResponse (Inl ''timeout'')) exampleJob) = requests exampleJob \<and>
   statusFetches (run [Tick, Tick] (step (StatusResponse (Inl ''timeout'')) exampleJob)) = 1 \<and>
   0 < outputsInFlight (step (StatusResponse (Inr (''success'', None))) exampleJob) \<and>
   requests (step (OutputsResponse (Inl ''HTTP 500''))
     (step (StatusResponse (Inr (''success'', None))) exampleJob)) =
     requests (step (StatusResponse (Inr (''success'', None))) exampleJob)"
proof -
  let ?w = "exampleWorld\<lparr>putUpload := Inl ''HTTP 503''\<rparr>"
  let ?s = "step (StatusResponse (Inr (''success'', None))) exampleJob"
  have h: "selectedVideo exampleUi \<noteq> None" "\<not> (fileKnown exampleUi \<and> allSucceed ?w)"
    "timerActive exampleUi = False"
    by (simp_all add: exampleUi_def allSucceed_def exampleWorld_def)
  have n: "newRequests (processVideo exampleEnv ?w) exampleUi =
     [DropboxDownload ''/talk.mp4'', GetUploadUrl ''/talk.mp4'' 3 ''video/mp4'',
      PutUpload ''https://upload'' [0, 1, 2] ''video/mp4'']"
    "status (processingStatus (processVideo exampleEnv ?w exampleUi)) = Error"
    by (simp_all add: newRequests_def exampleUi_def exampleWorld_def exampleEnv_def
          exampleVideo_def pv_defs ui_defs Let_def)
  have j: "0 < statusInFlight exampleJob" "statusFetches exampleJob = 1"
    "0 < outputsInFlight ?s"
    by (simp_all add: exampleJob_eval ui_defs)
  note T1 = C6_failures_not_retried
    [where e = exampleEnv and w = "?w" and s = exampleUi and err = "''timeout''"
       and err' = "''timeout''" and c = "[]" and messages = "[]"]
  from T1 h have a: "\<not> timerActive (processVideo exampleEnv ?w exampleUi)"
    by blast
  note T2 = C6_failures_not_retried
    [where e = exampleEnv and w = "?w" and s = exampleJob and err = "''timeout''"
       and err' = "''timeout''" and c = "[]" and messages = "[]"]
  from T2 j(1)
  have b1: "requests (step (StatusResponse (Inl ''timeout'')) exampleJob) = requests exampleJob"
    and b2: "\<forall>evs. statusFetches (run evs (step (StatusResponse (Inl ''timeout'')) exampleJob)) =
               statusFetches exampleJob"
    by blast+
  from b2 have "statusFetches (run [Tick, Tick] (step (StatusResponse (Inl ''timeout'')) exampleJob)) =
               statusFetches exampleJob"
    by blast
  with j(2)
  have b3: "statusFetches (run [Tick, Tick] (step (StatusResponse (Inl ''timeout'')) exampleJob)) = 1"
    by (simp only:)
  note T3 = C6_failures_not_retried
    [where e = exampleEnv and w = "?w" and s = "?s" and err = "''HTTP 500''"
       and err' = "''HTTP 500''" and c = "[]" and messages = "[]"]
  from T3 j(3)
  have c: "requests (step (OutputsResponse (Inl ''HTTP 500'')) ?s) = requests ?s"
    by blast
  from h n j a b1 b3 c show ?thesis by blast
qed

section \<open>Properties of the demo page\<close>

lemma trackProgress_cases:
  "trackProgress m c = c \<or> rank (trackProgress m c) = Suc (rank c)"
  by (cases c) (auto simp: trackProgress_def Let_def)

lemma renders_chain:
  "successively (\<lambda>a b. rank b = Suc (rank a)) (renders m c) \<and> hd (renders m c) = c \<and>
   renders m c \<noteq> [] \<and> rank c \<le> rank (last (renders m c))"
proof (induction m c rule: renders.induct)
  case (1 m c)
  show ?case
  proof (cases "trackProgress m c = c")
    case True
    then show ?thesis by (simp add: Let_def)
  next
    case False
    then have r: "rank (trackProgress m c) = Suc (rank c)"
      using trackProgress_cases [of m c] by simp
    from False have eq: "renders m c = c # renders m (trackProgress m c)"
      by (subst renders.simps) (simp add: Let_def)
    from "1.IH" [OF refl False] r show ?thesis
      unfolding eq by (cases "renders m (trackProgress m c)") auto
  qed
qed

lemma observe_forward: "rank c \<le> rank (observe m c)"
  using renders_chain [of m c] by (simp add: observe_def)

lemma observeAll_forward: "rank c \<le> rank (observeAll h c)"
proof (induction h arbitrary: c)
  case Nil
  then show ?case by simp
next
  case (Cons m h)
  have "rank c \<le> rank (observe m c)" by (rule observe_forward)
  also have "\<dots> \<le> rank (observeAll h (observe m c))" by (rule Cons.IH)
  finally show ?case by simp
qed

text \<open>
  C9, amended. One run of the tracking effect leaves \<open>currentStep\<close> as it is or moves it
  to the next step of the sequence initial, upload, caption, status; it never moves
  backward and never skips a step. The renders caused by one value of \<open>messages\<close> pass
  through consecutive steps, so \<open>currentStep\<close> only moves forward, over one observed
  message and over any history of messages; one message can move it by more than one
  step, since the effect runs again after each change of \<open>currentStep\<close>.
\<close>

theorem C9_step_forward:
  "(trackProgress messages currentStep = currentStep \<or>
    rank (trackProgress messages currentStep) = Suc (rank currentStep)) \<and>
   successively (\<lambda>a b. rank b = Suc (rank a)) (renders messages currentStep) \<and>
   hd (renders messages currentStep) = currentStep \<and>
   rank currentStep \<le> rank (observe messages currentStep) \<and>
   rank currentStep \<le> rank (observeAll history currentStep)"
  using trackProgress_cases [of messages currentStep] renders_chain [of messages currentStep]
    observe_forward [of currentStep messages] observeAll_forward [of currentStep history]
  by blast

text \<open>
  C9, as stated, fails: one assistant message that holds the three markers moves
  \<open>currentStep\<close> from initial to status, three steps for one observed message.
\<close>

theorem C9_step_forward_counterexample:
  "renders [\<lparr>role = ''assistant'',
             content = ''```tsx uploaded successfully Processing'',
             toolInvocations = None\<rparr>] Initial = [Initial, Upload, Caption, Status] \<and>
   observe [\<lparr>role = ''assistant'',
             content = ''```tsx uploaded successfully Processing'',
             toolInvocations = None\<rparr>] Initial = Status"
  by (simp add: observe_def trackProgress_def Let_def)

section \<open>Properties of \<open>transformCode\<close>\<close>

subsection \<open>What a match of the import pattern is\<close>









subsection \<open>When the import pattern matches\<close>






subsection \<open>The first replacement\<close>




subsection \<open>The second replacement\<close>









subsection \<open>An import statement on one line\<close>












subsection \<open>No import line is left\<close>





subsection \<open>The second replacement keeps it so\<close>






subsection \<open>The whole function\<close>













end
